theory Spec2Isabelle
  imports Complex_Main
begin

section \<open>Collusive voting: the favouritism and collusion tests of collusion.ipynb\<close>

text \<open>
  The development follows the cells of \<^verbatim>\<open>notebooks/collusion.ipynb\<close> in order: cleaning the
  raw table, joining jury and televote rows, the per-year maxima, normalisation, the vote
  simulators, \<^verbatim>\<open>favouritism\<close> and \<^verbatim>\<open>collusion\<close>.

  Conventions of the embedding.
  \<^item> A data frame is the list of its rows, a Series is the list of its (label, value) pairs.
  \<^item> Integer columns are int64: their values are \<open>int\<close>s, and a sum of two columns is reduced
    into the int64 range as the machine addition wraps (\<open>add64\<close>).
  \<^item> A float64 value is an \<open>npfloat\<close>. The three non-finite values that integer division by
    zero produces in numpy and pandas are kept apart, since comparisons treat them
    differently. A finite value is idealised as an exact rational: the rounding of float64
    arithmetic is not modelled, so the embedding says nothing about which of two finite
    results that differ by rounding alone is the greater. The statements below rest on the
    control flow, on integer arithmetic, on signs and bounds and on the non-finite values,
    none of which rounding changes.
  \<^item> Exceptions are values: a function that can raise returns \<open>error + 'a\<close>.
  \<^item> The process-wide generator \<^verbatim>\<open>rng\<close> is threaded through every function that draws from it.
\<close>

subsection \<open>Errors and float64 values\<close>

datatype error = ValueError | AssertionError | KeyError

datatype npfloat = Fin rat | PInf | NInf | NaN

definition bind_err :: "error + 'a \<Rightarrow> ('a \<Rightarrow> error + 'b) \<Rightarrow> error + 'b" where
  "bind_err m f = (case m of Inl e \<Rightarrow> Inl e | Inr v \<Rightarrow> f v)"

text \<open>Addition of two int64 values: the result wraps around into the int64 range.\<close>

definition wrap64 :: "int \<Rightarrow> int" where
  "wrap64 x = (x + 2 ^ 63) mod 2 ^ 64 - 2 ^ 63"

definition add64 :: "int \<Rightarrow> int \<Rightarrow> int" where
  "add64 a b = wrap64 (a + b)"

text \<open>Addition of float64 values: the exact sum of two finite values, \<open>inf - inf\<close> is \<open>nan\<close>.\<close>

fun fadd :: "npfloat \<Rightarrow> npfloat \<Rightarrow> npfloat" where
  "fadd NaN _ = NaN"
| "fadd _ NaN = NaN"
| "fadd (Fin a) (Fin b) = Fin (a + b)"
| "fadd PInf NInf = NaN"
| "fadd NInf PInf = NaN"
| "fadd PInf _ = PInf"
| "fadd _ PInf = PInf"
| "fadd NInf _ = NInf"
| "fadd _ NInf = NInf"

fun fneg :: "npfloat \<Rightarrow> npfloat" where
  "fneg (Fin a) = Fin (- a)"
| "fneg PInf = NInf"
| "fneg NInf = PInf"
| "fneg NaN = NaN"

definition fsub :: "npfloat \<Rightarrow> npfloat \<Rightarrow> npfloat" where
  "fsub a b = fadd a (fneg b)"

text \<open>Multiplication by a finite weight, as the interpolation of a percentile uses it.\<close>

fun fscale :: "npfloat \<Rightarrow> rat \<Rightarrow> npfloat" where
  "fscale (Fin a) t = Fin (a * t)"
| "fscale NaN t = NaN"
| "fscale PInf t = (if t = 0 then NaN else if 0 < t then PInf else NInf)"
| "fscale NInf t = (if t = 0 then NaN else if 0 < t then NInf else PInf)"

text \<open>
  True division of two int64 values (\<^verbatim>\<open>/\<close> on integer arrays and columns): no exception
  on a zero divisor, but \<open>inf\<close>, \<open>-inf\<close> or \<open>nan\<close>.
\<close>

definition fdiv_int :: "int \<Rightarrow> int \<Rightarrow> npfloat" where
  "fdiv_int n d =
     (if d \<noteq> 0 then Fin (rat_of_int n / rat_of_int d)
      else if 0 < n then PInf else if n < 0 then NInf else NaN)"

text \<open>Division of a sum by the number of summands; the mean of no values is \<open>nan\<close>.\<close>

fun fdiv_count :: "npfloat \<Rightarrow> nat \<Rightarrow> npfloat" where
  "fdiv_count x 0 = NaN"
| "fdiv_count (Fin a) n = Fin (a / rat_of_nat n)"
| "fdiv_count x n = x"

definition fsum :: "npfloat list \<Rightarrow> npfloat" where
  "fsum xs = foldl fadd (Fin 0) xs"

text \<open>\<^verbatim>\<open>ndarray.mean(axis=1)\<close> on one row, and \<^verbatim>\<open>Series.mean()\<close>, which skips \<open>nan\<close>.\<close>

definition np_mean :: "npfloat list \<Rightarrow> npfloat" where
  "np_mean xs = fdiv_count (fsum xs) (length xs)"

definition series_mean :: "npfloat list \<Rightarrow> npfloat" where
  "series_mean xs = np_mean (filter (\<lambda>x. x \<noteq> NaN) xs)"

text \<open>Comparisons: every comparison with \<open>nan\<close> is false.\<close>

fun fgt :: "npfloat \<Rightarrow> npfloat \<Rightarrow> bool" where
  "fgt NaN _ = False"
| "fgt _ NaN = False"
| "fgt (Fin a) (Fin b) = (b < a)"
| "fgt PInf PInf = False"
| "fgt PInf _ = True"
| "fgt NInf _ = False"
| "fgt (Fin a) NInf = True"
| "fgt (Fin a) PInf = False"

fun fge :: "npfloat \<Rightarrow> npfloat \<Rightarrow> bool" where
  "fge NaN _ = False"
| "fge _ NaN = False"
| "fge a b = (a = b \<or> fgt a b)"

text \<open>\<^verbatim>\<open>np.sort\<close>: ascending, \<open>nan\<close> last.\<close>

fun sort_le :: "npfloat \<Rightarrow> npfloat \<Rightarrow> bool" where
  "sort_le _ NaN = True"
| "sort_le NaN _ = False"
| "sort_le a b = (a = b \<or> fgt b a)"

fun np_insort :: "npfloat \<Rightarrow> npfloat list \<Rightarrow> npfloat list" where
  "np_insort x [] = [x]"
| "np_insort x (y # ys) = (if sort_le x y then x # y # ys else y # np_insort x ys)"

definition np_sort :: "npfloat list \<Rightarrow> npfloat list" where
  "np_sort xs = foldr np_insort xs []"

text \<open>
  \<^verbatim>\<open>ndarray.min()\<close>: raises ValueError on an empty array, propagates \<open>nan\<close>.
\<close>

fun fmin :: "npfloat \<Rightarrow> npfloat \<Rightarrow> npfloat" where
  "fmin NaN _ = NaN"
| "fmin _ NaN = NaN"
| "fmin a b = (if sort_le a b then a else b)"

definition np_min :: "npfloat list \<Rightarrow> error + npfloat" where
  "np_min xs = (case xs of [] \<Rightarrow> Inl ValueError | x # ys \<Rightarrow> Inr (foldl fmin x ys))"

text \<open>
  \<^verbatim>\<open>np.percentile(a, q)\<close> with its default method \<^verbatim>\<open>linear\<close>, after numpy's documentation and
  its function \<^verbatim>\<open>_quantile\<close>: \<open>q\<close> outside \<open>[0, 100]\<close> raises ValueError; the data are sorted;
  the virtual index is \<open>q / 100 * (n - 1)\<close>; the two order statistics around it are
  interpolated by \<^verbatim>\<open>_lerp\<close>, which computes \<open>a + (b - a) * t\<close> and, for \<open>t \<ge> 0.5\<close>,
  \<open>b - (b - a) * (1 - t)\<close> instead; a virtual index at the last position takes the last
  element for both and its distance from \<open>-1\<close> for \<open>t\<close>; a \<open>nan\<close> among the data makes the
  result \<open>nan\<close>.
\<close>

definition lerp :: "npfloat \<Rightarrow> npfloat \<Rightarrow> rat \<Rightarrow> npfloat" where
  "lerp a b t =
     (if 1 / 2 \<le> t then fsub b (fscale (fsub b a) (1 - t))
      else fadd a (fscale (fsub b a) t))"

definition np_percentile :: "npfloat list \<Rightarrow> rat \<Rightarrow> error + npfloat" where
  "np_percentile a q =
     (if q < 0 \<or> 100 < q then Inl ValueError
      else if a = [] \<or> NaN \<in> set a then Inr NaN
      else
        let s = np_sort a;
            n = length s;
            h = q / 100 * rat_of_nat (n - 1)
        in if rat_of_nat (n - 1) \<le> h
           then Inr (lerp (s ! (n - 1)) (s ! (n - 1)) (h + 1))
           else Inr (lerp (s ! nat \<lfloor>h\<rfloor>) (s ! (nat \<lfloor>h\<rfloor> + 1)) (h - rat_of_int \<lfloor>h\<rfloor>)))"

subsection \<open>Tables\<close>

text \<open>
  Every table of the notebook is keyed by \<^verbatim>\<open>Year\<close>, \<^verbatim>\<open>From_country\<close> and \<^verbatim>\<open>To_country\<close>.
  \<open>csv_row\<close> is a row of \<^verbatim>\<open>csv\<close> after the columns are selected, \<open>raw_row\<close> a row of the file
  as read (with the two columns the first filter reads), and \<open>'p vote_row\<close> a row of
  \<^verbatim>\<open>combined_csv\<close> (\<open>'p = int\<close>) or of \<^verbatim>\<open>points\<close> (\<open>'p = npfloat\<close>).
\<close>

record key =
  Year :: int
  From_country :: string
  To_country :: string

record csv_row = key +
  Jury_or_Televoting :: string
  Points :: int

record raw_row = csv_row +
  semi_final :: string
  Duplicate :: string

record 'p vote_row = key +
  Points_Jury :: 'p
  Points_Televote :: 'p
  Points_total :: 'p

definition key_of :: "'a key_scheme \<Rightarrow> int \<times> string \<times> string" where
  "key_of r = (Year r, From_country r, To_country r)"

type_synonym 'a series = "(int \<times> 'a) list"

subsection \<open>Cleaning the raw table\<close>

text \<open>
  \<^verbatim>\<open>csv = csv[(csv["(semi-) final"] == "f") & (csv["Duplicate"] != "x")
              & (csv["From_country"] != csv["To_country"])]\<close>
\<close>

definition grand_final :: "raw_row list \<Rightarrow> raw_row list" where
  "grand_final raw =
     filter (\<lambda>r. semi_final r = ''f'' \<and> Duplicate r \<noteq> ''x'' \<and> From_country r \<noteq> To_country r) raw"

text \<open>\<^verbatim>\<open>DataFrame.drop_duplicates()\<close>: of rows equal in every column, the first is kept.\<close>

definition drop_duplicates :: "'a list \<Rightarrow> 'a list" where
  "drop_duplicates xs = rev (remdups (rev xs))"

definition select_columns :: "raw_row \<Rightarrow> csv_row" where
  "select_columns r =
     \<lparr>Year = Year r, From_country = From_country r, To_country = To_country r,
      Jury_or_Televoting = Jury_or_Televoting r, Points = Points r\<rparr>"

definition replace_country :: "string \<Rightarrow> string" where
  "replace_country c = (if c = ''F.Y.R. Macedonia'' then ''North Macedonia'' else c)"

definition rename_macedonia :: "csv_row \<Rightarrow> csv_row" where
  "rename_macedonia r =
     r\<lparr>From_country := replace_country (From_country r),
       To_country := replace_country (To_country r)\<rparr>"

definition deduplicated :: "raw_row list \<Rightarrow> csv_row list" where
  "deduplicated raw = drop_duplicates (map select_columns (grand_final raw))"

definition clean_csv :: "raw_row list \<Rightarrow> csv_row list" where
  "clean_csv raw = map rename_macedonia (deduplicated raw)"

subsection \<open>Combining jury and televote rows\<close>

text \<open>
  \<^verbatim>\<open>csv.join(csv.set_index([Year, From_country, To_country]), on=[...],
             lsuffix="_Jury", rsuffix="_Televote", how="right")\<close>
  joins the table with itself: for each row of the right side, in order, one joined row for
  every left row with the same key. The left row supplies the \<^verbatim>\<open>_Jury\<close> columns and the right
  row the \<^verbatim>\<open>_Televote\<close> columns. A right join would fill the left columns with \<open>nan\<close> for a
  right row without a partner; both sides are the same table here, so every right row has
  itself as a partner (lemma \<open>self_join_covers\<close>).
\<close>

definition self_join :: "csv_row list \<Rightarrow> (csv_row \<times> csv_row) list" where
  "self_join csv =
     concat (map (\<lambda>r. map (\<lambda>l. (l, r)) (filter (\<lambda>l. key_of l = key_of r) csv)) csv)"

text \<open>
  \<^verbatim>\<open>combined_csv[(Year < 2016) | ((Year >= 2016) & (Jury_or_Televoting_Jury == "J")
                                     & (Jury_or_Televoting_Televote == "T"))]\<close>
\<close>

definition dual_vote_filter :: "csv_row \<times> csv_row \<Rightarrow> bool" where
  "dual_vote_filter lr =
     (case lr of (l, r) \<Rightarrow>
        Year r < 2016 \<or>
        (2016 \<le> Year r \<and> Jury_or_Televoting l = ''J'' \<and> Jury_or_Televoting r = ''T''))"

text \<open>
  \<^verbatim>\<open>Points_Televote\<close> is set to 0 up to 2015, the two label columns are dropped, and
  \<^verbatim>\<open>Points_total = Points_Jury + Points_Televote\<close>, an addition of two int64 columns.
\<close>

definition combine :: "csv_row \<times> csv_row \<Rightarrow> int vote_row" where
  "combine lr =
     (case lr of (l, r) \<Rightarrow>
        let tv = (if Year r \<le> 2015 then 0 else Points r)
        in \<lparr>Year = Year r, From_country = From_country r, To_country = To_country r,
            Points_Jury = Points l, Points_Televote = tv, Points_total = add64 (Points l) tv\<rparr>)"

definition combined_csv :: "csv_row list \<Rightarrow> int vote_row list" where
  "combined_csv csv = map combine (filter dual_vote_filter (self_join csv))"

subsection \<open>Per-year maxima, normalisation, participants\<close>

text \<open>The sorted distinct years of a table: the index of a \<^verbatim>\<open>groupby(["Year"])\<close>.\<close>

definition years_of :: "'a key_scheme list \<Rightarrow> int list" where
  "years_of tbl = sort (remdups (map Year tbl))"

definition donors_of :: "'a key_scheme list \<Rightarrow> int \<Rightarrow> string list" where
  "donors_of tbl y = remdups (map From_country (filter (\<lambda>r. Year r = y) tbl))"

text \<open>\<^verbatim>\<open>grouped = csv[[...]].groupby(["Year", "From_country"]).max()\<close>, one column of it.\<close>

definition grouped_max :: "(int vote_row \<Rightarrow> int) \<Rightarrow> int vote_row list \<Rightarrow> int \<Rightarrow> string \<Rightarrow> int" where
  "grouped_max col tbl y d =
     Max (set (map col (filter (\<lambda>r. Year r = y \<and> From_country r = d) tbl)))"

text \<open>\<^verbatim>\<open>by_year = grouped.groupby(["Year"])\<close> and \<^verbatim>\<open>by_year.<col>.max()\<close> at one year.\<close>

definition by_year_max :: "(int vote_row \<Rightarrow> int) \<Rightarrow> int vote_row list \<Rightarrow> int \<Rightarrow> int" where
  "by_year_max col tbl y = Max (set (map (grouped_max col tbl y) (donors_of tbl y)))"

definition max_each_year :: "int vote_row list \<Rightarrow> int series \<times> bool series" where
  "max_each_year tbl =
     (map (\<lambda>y. (y, add64 (by_year_max Points_Jury tbl y) (by_year_max Points_Televote tbl y)))
        (years_of tbl),
      map (\<lambda>y. (y, by_year_max Points_Televote tbl y \<noteq> 0)) (years_of tbl))"

text \<open>
  \<^verbatim>\<open>points = combined_csv.join(MAX_POSSIBLE_POINTS_RECEIVED.to_frame(name="highest"), on=["Year"])\<close>
  followed by the three in-place divisions by \<^verbatim>\<open>highest\<close>. A left join gives \<open>nan\<close> for a
  year without an entry.
\<close>

definition divide_by_highest :: "int series \<Rightarrow> int \<Rightarrow> int \<Rightarrow> npfloat" where
  "divide_by_highest highest y p =
     (case map_of highest y of None \<Rightarrow> NaN | Some h \<Rightarrow> fdiv_int p h)"

definition normalise :: "int series \<Rightarrow> int vote_row \<Rightarrow> npfloat vote_row" where
  "normalise highest r =
     \<lparr>Year = Year r, From_country = From_country r, To_country = To_country r,
      Points_Jury = divide_by_highest highest (Year r) (Points_Jury r),
      Points_Televote = divide_by_highest highest (Year r) (Points_Televote r),
      Points_total = divide_by_highest highest (Year r) (Points_total r)\<rparr>"

definition points_table :: "int vote_row list \<Rightarrow> npfloat vote_row list" where
  "points_table combined = map (normalise (fst (max_each_year combined))) combined"

text \<open>
  \<^verbatim>\<open>points.groupby(["Year", "From_country"]).count()["To_country"].groupby(level="Year").count()\<close>:
  the number of distinct donors of each year.
\<close>

definition participants_by_year :: "'a key_scheme list \<Rightarrow> int series" where
  "participants_by_year tbl = map (\<lambda>y. (y, int (length (donors_of tbl y)))) (years_of tbl)"

text \<open>The three module-level tables that \<^verbatim>\<open>favouritism\<close> reads.\<close>

record globals =
  MAX_POSSIBLE_POINTS_RECEIVED :: "int series"
  HAS_TELEVOTE_BY_YEAR :: "bool series"
  PARTICIPANTS_BY_YEAR :: "int series"

definition notebook_globals :: "int vote_row list \<Rightarrow> globals" where
  "notebook_globals combined =
     \<lparr>MAX_POSSIBLE_POINTS_RECEIVED = fst (max_each_year combined),
      HAS_TELEVOTE_BY_YEAR = snd (max_each_year combined),
      PARTICIPANTS_BY_YEAR = participants_by_year (points_table combined)\<rparr>"

text \<open>
  The cleaning and normalising cells as one function of the file's rows. None of the cells
  contains a \<^verbatim>\<open>raise\<close> or an \<^verbatim>\<open>assert\<close>, and none of the pandas operations used raises on
  repeated rows, so the function always returns.
\<close>

definition record_normalizer :: "raw_row list \<Rightarrow> error + npfloat vote_row list" where
  "record_normalizer raw = Inr (points_table (combined_csv (clean_csv raw)))"

subsection \<open>The random generator\<close>

text \<open>
  \<^verbatim>\<open>rng = default_rng()\<close> is process-wide state. Its bit stream is abstracted as an unknown
  sequence \<open>raw\<close> of natural numbers of which \<open>pos\<close> have been used.

  \<^verbatim>\<open>rng.integers(low, high, size=(n, len(high)))\<close>, after numpy's documentation of
  \<^verbatim>\<open>Generator.integers\<close>: \<open>high\<close> is an array, broadcast along the rows; each entry of column
  \<open>j\<close> lies in the half-open interval from \<open>low\<close> to \<open>high[j]\<close>; ValueError is raised when a
  dimension is negative, and when \<open>low >= high[j]\<close> for some \<open>j\<close> unless no entry is
  requested (the bounds are not checked for an empty result). Each entry uses one number of
  the stream, reduced into its interval.
\<close>

record rng_state =
  raw :: "nat \<Rightarrow> nat"
  pos :: nat

definition draw :: "rng_state \<Rightarrow> int \<Rightarrow> int \<Rightarrow> nat \<Rightarrow> int" where
  "draw g low high k = low + int (raw g (pos g + k) mod nat (high - low))"

definition rng_integers ::
  "int \<Rightarrow> int list \<Rightarrow> int \<Rightarrow> rng_state \<Rightarrow> error + (int list list \<times> rng_state)" where
  "rng_integers low high n g =
     (if n < 0 \<or> (n \<noteq> 0 \<and> (\<exists>h \<in> set high. h \<le> low)) then Inl ValueError
      else
        let w = length high
        in Inr (map (\<lambda>i. map (\<lambda>j. draw g low (high ! j) (i * w + j)) [0..<w]) [0..<nat n],
                g\<lparr>pos := pos g + nat n * w\<rparr>))"

subsection \<open>Vote simulation\<close>

text \<open>
  \<^verbatim>\<open>np.searchsorted(a, v)\<close> with the default \<^verbatim>\<open>side="left"\<close>, for a sorted \<open>a\<close>: the first
  index whose element is not smaller than \<open>v\<close>.
\<close>

definition searchsorted :: "rat list \<Rightarrow> rat \<Rightarrow> nat" where
  "searchsorted a v = length (takeWhile (\<lambda>x. x < v) a)"

definition rank_breaks :: "rat list" where
  "rank_breaks = [1, 3 / 2, 2, 5 / 2, 3, 4, 5, 6, 7, 8, 9, 10]"

text \<open>
  \<^verbatim>\<open>np.where(ranks > 10, 0, 12 - np.searchsorted([1,1.5,2,2.5,3,4,5,6,7,8,9,10], ranks))\<close>
  at one entry.
\<close>

definition rank_to_points :: "int \<Rightarrow> int" where
  "rank_to_points r =
     (if 10 < r then 0 else 12 - int (searchsorted rank_breaks (rat_of_int r)))"

definition score_ladder :: "int list" where
  "score_ladder = [12, 10, 8, 7, 6, 5, 4, 3, 2, 1]"

definition column :: "'a list list \<Rightarrow> nat \<Rightarrow> 'a list" where
  "column m j = map (\<lambda>row. row ! j) m"

text \<open>
  \<^verbatim>\<open>assert (countries_each_year - ranks.max()).sum() >= 0\<close>. \<^verbatim>\<open>ranks.max()\<close> is the maximum
  of each column; the difference and the sum are int64 operations. A frame without rows has
  \<open>nan\<close> maxima, which the sum skips, so the asserted sum is 0 then.
\<close>

definition sum64 :: "int list \<Rightarrow> int" where
  "sum64 xs = foldl add64 0 xs"

definition ranks_assertion :: "int series \<Rightarrow> int list list \<Rightarrow> bool" where
  "ranks_assertion countries_each_year ranks =
     (ranks = [] \<or>
      0 \<le> sum64 (map (\<lambda>j. wrap64 (snd (countries_each_year ! j) - Max (set (column ranks j))))
                       [0..<length countries_each_year]))"

definition simulate_jury_votes ::
  "int series \<Rightarrow> int \<Rightarrow> rng_state \<Rightarrow> error + (int list list \<times> rng_state)" where
  "simulate_jury_votes countries_each_year num_simulations g =
     bind_err (rng_integers 1 (map snd countries_each_year) num_simulations g)
       (\<lambda>(ranks, g').
          if \<not> ranks_assertion countries_each_year ranks then Inl AssertionError
          else Inr (map (map rank_to_points) ranks, g'))"

text \<open>
  \<^verbatim>\<open>ranks[no_televote.index] = 256\<close> sets each labelled column in turn: a column labelled
  with a year that had no televote is overwritten, and a label that is not a column becomes
  a new column at the end. (\<^verbatim>\<open>favouritism\<close> takes both the columns and the labels from the
  same years, so it never adds a column: lemma \<open>blank_columns_known_labels\<close>.)
\<close>

definition blank_columns :: "int series \<Rightarrow> int list \<Rightarrow> int list list \<Rightarrow> int list list" where
  "blank_columns countries_each_year no_televote ranks =
     (let new_labels = remdups (filter (\<lambda>y. y \<notin> set (map fst countries_each_year)) no_televote)
      in map (\<lambda>row. map (\<lambda>(c, r). if fst c \<in> set no_televote then 256 else r)
                         (zip countries_each_year row)
                   @ map (\<lambda>y. 256) new_labels) ranks)"

definition simulate_televotes ::
  "int series \<Rightarrow> int list \<Rightarrow> int \<Rightarrow> rng_state \<Rightarrow> error + (int list list \<times> rng_state)" where
  "simulate_televotes countries_each_year no_televote num_simulations g =
     bind_err (rng_integers 1 (map snd countries_each_year) num_simulations g)
       (\<lambda>(ranks, g').
          if \<not> ranks_assertion countries_each_year ranks then Inl AssertionError
          else Inr (map (map rank_to_points)
                      (blank_columns countries_each_year no_televote ranks), g'))"

subsection \<open>The favouritism test\<close>

text \<open>
  What \<^verbatim>\<open>favouritism\<close> and \<^verbatim>\<open>collusion\<close> return: \<^verbatim>\<open>None\<close>, a boolean, or (with
  \<^verbatim>\<open>return_detailed_data\<close>) the dictionary of \<^verbatim>\<open>actual_avg\<close> and \<^verbatim>\<open>sim_avg\<close>.
\<close>

datatype pyval = PyNone | PyBool bool | PyDict npfloat npfloat

text \<open>Python's truth value, which \<^verbatim>\<open>and\<close> and \<^verbatim>\<open>if result:\<close> test.\<close>

fun truthy :: "pyval \<Rightarrow> bool" where
  "truthy PyNone = False"
| "truthy (PyBool b) = b"
| "truthy (PyDict _ _) = True"

text \<open>\<^verbatim>\<open>s[labels]\<close> on a Series with a unique index: KeyError when a label is missing.\<close>

fun series_loc :: "'a series \<Rightarrow> int list \<Rightarrow> error + 'a series" where
  "series_loc s [] = Inr []"
| "series_loc s (k # ks) =
     (case map_of s k of
        None \<Rightarrow> Inl KeyError
      | Some v \<Rightarrow> bind_err (series_loc s ks) (\<lambda>vs. Inr ((k, v) # vs)))"

text \<open>The rows of \<^verbatim>\<open>by_year\<close>.\<close>

definition applicable_span ::
  "npfloat vote_row list \<Rightarrow> string \<Rightarrow> string \<Rightarrow> int \<Rightarrow> int \<Rightarrow> npfloat vote_row list" where
  "applicable_span csv country_x country_y start_year end_year =
     filter (\<lambda>r. start_year \<le> Year r \<and> Year r \<le> end_year \<and>
                 From_country r = country_x \<and> To_country r = country_y) csv"

definition actual_average :: "npfloat vote_row list \<Rightarrow> npfloat" where
  "actual_average by_year = series_mean (map Points_total by_year)"

text \<open>
  \<^verbatim>\<open>simulated_points = jury_votes + televotes\<close> (two arrays of int64),
  \<^verbatim>\<open>points_percentage = simulated_points / MAX_POSSIBLE_POINTS_RECEIVED[timespan].values\<close>
  (each column divided by its year's maximum) and
  \<^verbatim>\<open>simulation_avgs = points_percentage.mean(axis=1)\<close>.
\<close>

definition simulation_avgs :: "int list list \<Rightarrow> int list list \<Rightarrow> int series \<Rightarrow> npfloat list" where
  "simulation_avgs jury_votes televotes highest =
     (let simulated_points =
            map (\<lambda>(js, ts). map (\<lambda>(j, t). add64 j t) (zip js ts)) (zip jury_votes televotes);
          points_percentage =
            map (\<lambda>row. map (\<lambda>(p, h). fdiv_int p (snd h)) (zip row highest)) simulated_points
      in map np_mean points_percentage)"

text \<open>
  From \<^verbatim>\<open>countries_each_year = PARTICIPANTS_BY_YEAR[timespan]\<close> to the sanity check on the
  sorted simulation averages; \<^verbatim>\<open>actual_average\<close>, computed in between, draws nothing and
  cannot raise. The jury votes are simulated before the televotes.
\<close>

definition simulated_distribution ::
  "globals \<Rightarrow> int list \<Rightarrow> int \<Rightarrow> rng_state \<Rightarrow> error + (npfloat list \<times> rng_state)" where
  "simulated_distribution G timespan num_simulations g =
     bind_err (series_loc (PARTICIPANTS_BY_YEAR G) timespan) (\<lambda>countries_each_year.
     bind_err (series_loc (HAS_TELEVOTE_BY_YEAR G) timespan) (\<lambda>has_televote.
     let no_televote = map fst (filter (\<lambda>(y, b). b = False) has_televote) in
     bind_err (simulate_jury_votes countries_each_year num_simulations g) (\<lambda>(jury_votes, g1).
     bind_err (simulate_televotes countries_each_year no_televote num_simulations g1) (\<lambda>(televotes, g2).
     bind_err (series_loc (MAX_POSSIBLE_POINTS_RECEIVED G) timespan) (\<lambda>highest.
     let simluated_distribution = np_sort (simulation_avgs jury_votes televotes highest) in
     bind_err (np_min simluated_distribution) (\<lambda>m.
     if \<not> fge m (Fin 0) then Inl AssertionError
     else Inr (simluated_distribution, g2)))))))"

text \<open>
  \<^verbatim>\<open>favouritism(csv, country_x, country_y, start_year, end_year, num_simulations,
               confidence_threshold, plot_data, return_detailed_data)\<close>.
  Plotting (\<^verbatim>\<open>plot_data\<close>) only draws a figure and is left out.
\<close>

definition favouritism ::
  "globals \<Rightarrow> npfloat vote_row list \<Rightarrow> string \<Rightarrow> string \<Rightarrow> int \<Rightarrow> int \<Rightarrow> int \<Rightarrow> rat \<Rightarrow> bool \<Rightarrow>
   rng_state \<Rightarrow> error + (pyval \<times> rng_state)" where
  "favouritism G csv country_x country_y start_year end_year num_simulations
     confidence_threshold return_detailed_data g =
     (if country_x = country_y then Inr (PyBool False, g)
      else
        let by_year = applicable_span csv country_x country_y start_year end_year in
        if length by_year = 0 then Inr (PyNone, g)
        else
          let timespan = map Year by_year in
          bind_err (simulated_distribution G timespan num_simulations g) (\<lambda>(simluated_distribution, g').
          bind_err (np_percentile simluated_distribution confidence_threshold) (\<lambda>simulated_95th_percentile.
          let has_favouritism = fgt (actual_average by_year) simulated_95th_percentile in
          if return_detailed_data then
            (if has_favouritism
             then Inr (PyDict (actual_average by_year) simulated_95th_percentile, g')
             else Inr (PyBool False, g'))
          else Inr (PyBool has_favouritism, g'))))"

subsection \<open>The collusion test\<close>

text \<open>
  \<^verbatim>\<open>return favouritism(csv, x, y, ...) and favouritism(csv, y, x, ...)\<close>: Python's \<^verbatim>\<open>and\<close>
  returns its first operand when that is falsy, without evaluating the second, and the
  second operand otherwise.
\<close>

definition collusion ::
  "globals \<Rightarrow> npfloat vote_row list \<Rightarrow> string \<Rightarrow> string \<Rightarrow> int \<Rightarrow> int \<Rightarrow> int \<Rightarrow> rat \<Rightarrow> bool \<Rightarrow>
   rng_state \<Rightarrow> error + (pyval \<times> rng_state)" where
  "collusion G csv country_x country_y start_year end_year num_simulations
     confidence_threshold return_detailed_data g =
     bind_err (favouritism G csv country_x country_y start_year end_year num_simulations
                 confidence_threshold return_detailed_data g)
       (\<lambda>(v, g1).
          if \<not> truthy v then Inr (v, g1)
          else favouritism G csv country_y country_x start_year end_year num_simulations
                 confidence_threshold return_detailed_data g1)"

text \<open>A call that returned a truthy value: the outcome SIGNIFICANT, or \<open>True\<close> of the collusion test.\<close>

definition yields_true :: "error + (pyval \<times> rng_state) \<Rightarrow> bool" where
  "yields_true res = (case res of Inl e \<Rightarrow> False | Inr (v, g) \<Rightarrow> truthy v)"

text \<open>What a caller observes of a call: the exception or the value, and how many numbers
  of the generator's stream have been used after it.\<close>

definition outcome :: "error + (pyval \<times> rng_state) \<Rightarrow> error + (pyval \<times> nat)" where
  "outcome res = (case res of Inl e \<Rightarrow> Inl e | Inr (v, g) \<Rightarrow> Inr (v, pos g))"

subsection \<open>Example tables\<close>

definition csv_line :: "int \<Rightarrow> string \<Rightarrow> string \<Rightarrow> string \<Rightarrow> int \<Rightarrow> csv_row" where
  "csv_line y c f t p =
     \<lparr>Year = y, From_country = f, To_country = t, Jury_or_Televoting = c, Points = p\<rparr>"

definition raw_line :: "int \<Rightarrow> string \<Rightarrow> string \<Rightarrow> string \<Rightarrow> string \<Rightarrow> string \<Rightarrow> int \<Rightarrow> raw_row" where
  "raw_line y sf dup c f t p =
     \<lparr>Year = y, From_country = f, To_country = t, Jury_or_Televoting = c, Points = p,
      semi_final = sf, Duplicate = dup\<rparr>"

text \<open>A final of 2016 with three voting countries, jury and televote.\<close>

definition final_2016 :: "csv_row list" where
  "final_2016 =
     [csv_line 2016 ''J'' ''Norway'' ''Sweden'' 12, csv_line 2016 ''T'' ''Norway'' ''Sweden'' 12,
      csv_line 2016 ''J'' ''Sweden'' ''Norway'' 12, csv_line 2016 ''T'' ''Sweden'' ''Norway'' 10,
      csv_line 2016 ''J'' ''Denmark'' ''Norway'' 10, csv_line 2016 ''T'' ''Denmark'' ''Norway'' 12]"

definition points_2016 :: "npfloat vote_row list" where
  "points_2016 = points_table (combined_csv final_2016)"

definition globals_2016 :: globals where
  "globals_2016 = notebook_globals (combined_csv final_2016)"

text \<open>Generators: one whose stream is constant, one whose fourth number differs.\<close>

definition rng_ones :: rng_state where
  "rng_ones = \<lparr>raw = (\<lambda>k. 1), pos = 0\<rparr>"

definition rng_switch :: rng_state where
  "rng_switch = \<lparr>raw = (\<lambda>k. if k < 3 then 1 else 0), pos = 0\<rparr>"

text \<open>Rows of the file as read: a pair with a televote row only, a row that occurs twice,
  and two televote rows of one pair that disagree.\<close>

definition televote_only_2016 :: "raw_row list" where
  "televote_only_2016 = [raw_line 2016 ''f'' '''' ''T'' ''Norway'' ''Sweden'' 5]"

definition repeated_rows_2015 :: "raw_row list" where
  "repeated_rows_2015 =
     [raw_line 2015 ''f'' '''' ''J'' ''Norway'' ''Sweden'' 12,
      raw_line 2015 ''f'' '''' ''J'' ''Norway'' ''Sweden'' 12]"

definition belarus_2019 :: "raw_row list" where
  "belarus_2019 =
     [raw_line 2019 ''f'' '''' ''J'' ''Belarus'' ''Russia'' 4,
      raw_line 2019 ''f'' '''' ''T'' ''Belarus'' ''Russia'' 12,
      raw_line 2019 ''f'' '''' ''T'' ''Belarus'' ''Russia'' 0]"

definition rng_zeros :: rng_state where
  "rng_zeros = \<lparr>raw = (\<lambda>k. 0), pos = 0\<rparr>"

text \<open>A year whose only recorded score is 0.\<close>

definition zero_row_2000 :: "raw_row list" where
  "zero_row_2000 = [raw_line 2000 ''f'' '''' ''J'' ''Norway'' ''Sweden'' 0]"

text \<open>A year whose highest jury score and highest televote score add up to more than the
  greatest int64 value: each is \<open>2 ^ 62 + 2\<close>.\<close>

definition overflow_2016 :: "raw_row list" where
  "overflow_2016 =
     [raw_line 2016 ''f'' '''' ''J'' ''Norway'' ''Sweden'' 4611686018427387906,
      raw_line 2016 ''f'' '''' ''T'' ''Norway'' ''Sweden'' 0,
      raw_line 2016 ''f'' '''' ''J'' ''Denmark'' ''Sweden'' 0,
      raw_line 2016 ''f'' '''' ''T'' ''Denmark'' ''Sweden'' 4611686018427387906]"

text \<open>A year in which twelve countries vote and every recorded score is 0.\<close>

definition all_zero_2000 :: "csv_row list" where
  "all_zero_2000 =
     map (\<lambda>d. csv_line 2000 ''J'' d ''Z'' 0)
       [''A'', ''B'', ''C'', ''D'', ''E'', ''F'', ''G'', ''H'', ''I'', ''J'', ''K'', ''L'']"

definition points_zero_2000 :: "npfloat vote_row list" where
  "points_zero_2000 = points_table (combined_csv all_zero_2000)"

definition globals_zero_2000 :: globals where
  "globals_zero_2000 = notebook_globals (combined_csv all_zero_2000)"

definition rng_tens :: rng_state where
  "rng_tens = \<lparr>raw = (\<lambda>k. 10), pos = 0\<rparr>"

section \<open>Properties\<close>

subsection \<open>Auxiliary facts\<close>

lemma bind_err_Inr_iff:
  "bind_err m f = Inr v \<longleftrightarrow> (\<exists>u. m = Inr u \<and> f u = Inr v)"
  by (cases m) (simp_all add: bind_err_def)

lemma bind_err_Inl_iff:
  "bind_err m f = Inl e \<longleftrightarrow> m = Inl e \<or> (\<exists>u. m = Inr u \<and> f u = Inl e)"
  by (cases m) (simp_all add: bind_err_def)

text \<open>int64 sums that stay in range.\<close>

lemma wrap64_id: "- (2 ^ 63) \<le> x \<Longrightarrow> x < 2 ^ 63 \<Longrightarrow> wrap64 x = x"
  by (simp add: wrap64_def)

lemma add64_id: "0 \<le> a \<Longrightarrow> 0 \<le> b \<Longrightarrow> a + b < 2 ^ 63 \<Longrightarrow> add64 a b = a + b"
  by (simp add: add64_def wrap64_id)

lemma foldl_add64_id:
  "0 \<le> a \<Longrightarrow> \<forall>x \<in> set xs. 0 \<le> x \<Longrightarrow> a + sum_list xs < 2 ^ 63 \<Longrightarrow>
     foldl add64 a xs = a + sum_list xs"
proof (induction xs arbitrary: a)
  case Nil
  then show ?case by simp
next
  case (Cons x xs)
  from Cons.prems have x: "0 \<le> x" and rest: "\<forall>y \<in> set xs. 0 \<le> y" by simp_all
  from rest have "0 \<le> sum_list xs" by (intro sum_list_nonneg) simp
  with Cons.prems x have "add64 a x = a + x" by (intro add64_id) simp_all
  moreover from Cons.prems x have "0 \<le> a + x" "a + x + sum_list xs < 2 ^ 63" by simp_all
  ultimately show ?case using Cons.IH [of "a + x"] rest by simp
qed

lemma sum64_id: "\<forall>x \<in> set xs. 0 \<le> x \<Longrightarrow> sum_list xs < 2 ^ 63 \<Longrightarrow> sum64 xs = sum_list xs"
  using foldl_add64_id [of 0 xs] by (simp add: sum64_def)

text \<open>Sorting and the minimum.\<close>

lemma set_np_insort: "set (np_insort x xs) = insert x (set xs)"
  by (induction xs) auto

lemma length_np_insort: "length (np_insort x xs) = Suc (length xs)"
  by (induction xs) auto

lemma set_np_sort: "set (np_sort xs) = set xs"
  by (induction xs) (simp_all add: np_sort_def set_np_insort)

lemma length_np_sort: "length (np_sort xs) = length xs"
  by (induction xs) (simp_all add: np_sort_def length_np_insort)

lemma np_min_error: "np_min xs = Inl e \<Longrightarrow> e = ValueError"
  by (cases xs) (auto simp: np_min_def)

lemma np_percentile_error: "np_percentile xs q = Inl e \<Longrightarrow> e = ValueError"
  by (auto simp: np_percentile_def Let_def split: if_splits)

text \<open>The two early returns of the favouritism test.\<close>

lemma favouritism_ran_not_None:
  assumes "x \<noteq> y" "applicable_span csv x y a b \<noteq> []"
  shows "favouritism G csv x y a b S q d g \<noteq> Inr (PyNone, g')"
  using assms
  by (auto simp: favouritism_def Let_def bind_err_Inr_iff split: if_splits prod.splits)

lemma favouritism_empty_span:
  "x \<noteq> y \<Longrightarrow> applicable_span csv x y a b = [] \<Longrightarrow>
     favouritism G csv x y a b S q d g = Inr (PyNone, g)"
  by (simp add: favouritism_def)

text \<open>The generator after a call: only the number of used draws changes.\<close>

lemma rng_integers_state:
  "rng_integers low high n g = Inr (ranks, g') \<Longrightarrow> \<exists>k. g' = g\<lparr>pos := k\<rparr>"
  by (auto simp: rng_integers_def Let_def split: if_splits)

lemma simulate_jury_votes_state:
  "simulate_jury_votes c n g = Inr (pts, g') \<Longrightarrow> \<exists>k. g' = g\<lparr>pos := k\<rparr>"
  unfolding simulate_jury_votes_def bind_err_Inr_iff
  by (auto split: if_splits dest: rng_integers_state)

lemma simulate_televotes_state:
  "simulate_televotes c ntv n g = Inr (pts, g') \<Longrightarrow> \<exists>k. g' = g\<lparr>pos := k\<rparr>"
  unfolding simulate_televotes_def bind_err_Inr_iff
  by (auto split: if_splits dest: rng_integers_state)

lemma simulated_distribution_state:
  assumes "simulated_distribution G ts n g = Inr (batch, g')"
  shows "\<exists>k. g' = g\<lparr>pos := k\<rparr>"
proof -
  from assms obtain c ntv jv g1 tv where
    j: "simulate_jury_votes c n g = Inr (jv, g1)" and
    t: "simulate_televotes c ntv n g1 = Inr (tv, g')"
    by (auto simp: simulated_distribution_def Let_def bind_err_Inr_iff split: if_splits)
  from simulate_jury_votes_state [OF j] obtain k1 where "g1 = g\<lparr>pos := k1\<rparr>" by blast
  moreover from simulate_televotes_state [OF t] obtain k2 where "g' = g1\<lparr>pos := k2\<rparr>" by blast
  ultimately have "g' = g\<lparr>pos := k2\<rparr>" by simp
  then show ?thesis by blast
qed

lemma favouritism_state:
  assumes "favouritism G csv x y a b S q d g = Inr (v, g')"
  shows "\<exists>k. g' = g\<lparr>pos := k\<rparr>"
proof (cases "x = y \<or> applicable_span csv x y a b = []")
  case True
  with assms have "g' = g" by (auto simp: favouritism_def split: if_splits)
  then have "g' = g\<lparr>pos := pos g\<rparr>" by simp
  then show ?thesis by blast
next
  case False
  with assms obtain batch where
    "simulated_distribution G (map Year (applicable_span csv x y a b)) S g = Inr (batch, g')"
    by (auto simp: favouritism_def Let_def bind_err_Inr_iff split: if_splits)
  then show ?thesis by (rule simulated_distribution_state)
qed

lemma favouritism_of_outcome:
  assumes "outcome (favouritism G csv x y a b S q d g) = Inr (v, n)"
  shows "favouritism G csv x y a b S q d g = Inr (v, g\<lparr>pos := n\<rparr>)"
proof -
  from assms obtain g' where f: "favouritism G csv x y a b S q d g = Inr (v, g')" and n: "pos g' = n"
    by (auto simp: outcome_def split: sum.splits)
  from favouritism_state [OF f] obtain k where k: "g' = g\<lparr>pos := k\<rparr>" by blast
  with n have "k = n" by simp
  with f k show ?thesis by simp
qed

text \<open>The joined table as a set, and de-duplication.\<close>

lemma set_self_join:
  "set (self_join csv) = {(l, r). l \<in> set csv \<and> r \<in> set csv \<and> key_of l = key_of r}"
  by (auto simp: self_join_def)

lemma self_join_covers: "r \<in> set csv \<Longrightarrow> (r, r) \<in> set (self_join csv)"
  by (simp add: set_self_join)

lemma set_combined_csv:
  "set (combined_csv csv) =
     {combine (l, r) | l r. l \<in> set csv \<and> r \<in> set csv \<and> key_of l = key_of r \<and> dual_vote_filter (l, r)}"
  by (auto simp: combined_csv_def set_self_join)

lemma key_of_combine: "key_of (combine (l, r)) = key_of r"
  by (simp add: combine_def key_of_def Let_def)

lemma drop_duplicates_distinct: "distinct (drop_duplicates xs)"
  by (simp add: drop_duplicates_def)

lemma set_drop_duplicates: "set (drop_duplicates xs) = set xs"
  by (simp add: drop_duplicates_def)

lemma count_list_distinct: "distinct xs \<Longrightarrow> x \<in> set xs \<Longrightarrow> count_list xs x = 1"
  by (induction xs) (auto simp: count_list_0_iff)

text \<open>The per-year maxima bound every row of their year.\<close>

lemma map_of_tabulate:
  "map_of (map (\<lambda>k. (k, f k)) ks) k = (if k \<in> set ks then Some (f k) else None)"
  by (induction ks) auto

lemma year_in_years_of: "r \<in> set tbl \<Longrightarrow> Year r \<in> set (years_of tbl)"
  by (simp add: years_of_def)

lemma highest_lookup:
  "map_of (fst (max_each_year tbl)) y =
     (if y \<in> set (years_of tbl)
      then Some (add64 (by_year_max Points_Jury tbl y) (by_year_max Points_Televote tbl y))
      else None)"
  by (simp add: max_each_year_def map_of_tabulate)

lemma col_le_grouped_max:
  "r \<in> set tbl \<Longrightarrow> col r \<le> grouped_max col tbl (Year r) (From_country r)"
  by (simp add: grouped_max_def)

lemma grouped_le_by_year_max:
  "r \<in> set tbl \<Longrightarrow> grouped_max col tbl (Year r) (From_country r) \<le> by_year_max col tbl (Year r)"
  by (simp add: by_year_max_def donors_of_def)

lemma col_le_by_year_max: "r \<in> set tbl \<Longrightarrow> col r \<le> by_year_max col tbl (Year r)"
  using col_le_grouped_max [of r tbl col] grouped_le_by_year_max [of r tbl col] by linarith

lemma by_year_max_attained:
  assumes "r \<in> set tbl"
  shows "\<exists>r' \<in> set tbl. by_year_max col tbl (Year r) = col r'"
proof -
  let ?ds = "donors_of tbl (Year r)"
  from assms have "From_country r \<in> set ?ds" by (simp add: donors_of_def)
  then have "set (map (grouped_max col tbl (Year r)) ?ds) \<noteq> {}" by auto
  then have "by_year_max col tbl (Year r) \<in> set (map (grouped_max col tbl (Year r)) ?ds)"
    unfolding by_year_max_def by (intro Max_in) simp_all
  then obtain d where d: "d \<in> set ?ds" and m: "by_year_max col tbl (Year r) = grouped_max col tbl (Year r) d"
    by auto
  let ?grp = "filter (\<lambda>x. Year x = Year r \<and> From_country x = d) tbl"
  from d have "set (map col ?grp) \<noteq> {}" by (auto simp: donors_of_def)
  then have "grouped_max col tbl (Year r) d \<in> set (map col ?grp)"
    unfolding grouped_max_def by (intro Max_in) simp_all
  with m show ?thesis by auto
qed

text \<open>Drawn ranks and simulated points.\<close>

lemma draw_range: "low < high \<Longrightarrow> low \<le> draw g low high k \<and> draw g low high k < high"
proof -
  assume lh: "low < high"
  then have "0 < nat (high - low)" by simp
  then have "raw g (pos g + k) mod nat (high - low) < nat (high - low)" by simp
  then have "int (raw g (pos g + k) mod nat (high - low)) < high - low" by linarith
  then show ?thesis by (simp add: draw_def)
qed

lemma rng_integers_entries:
  assumes "rng_integers low high n g = Inr (ranks, g')" and "row \<in> set ranks"
  shows "length row = length high \<and> (\<forall>j < length high. low \<le> row ! j \<and> row ! j < high ! j)"
proof -
  from assms(1) have ranks:
    "ranks = map (\<lambda>i. map (\<lambda>j. draw g low (high ! j) (i * length high + j)) [0..<length high])
                 [0..<nat n]"
    and chk: "n = 0 \<or> (\<forall>h \<in> set high. low < h)"
    by (auto simp: rng_integers_def Let_def split: if_splits)
  from assms(2) ranks have "n \<noteq> 0" by auto
  with chk have ok: "\<forall>h \<in> set high. low < h" by simp
  from assms(2) ranks obtain i where
    row: "row = map (\<lambda>j. draw g low (high ! j) (i * length high + j)) [0..<length high]"
    by auto
  have "low \<le> row ! j \<and> row ! j < high ! j" if "j < length high" for j
  proof -
    from that ok have "low < high ! j" by simp
    from draw_range [OF this] row that show ?thesis by simp
  qed
  with row show ?thesis by simp
qed

lemma rng_integers_error: "rng_integers low high n g = Inl e \<Longrightarrow> e = ValueError"
  by (auto simp: rng_integers_def Let_def split: if_splits)

lemma ranks_assertion_holds:
  assumes r: "rng_integers 1 (map snd c) n g = Inr (ranks, g')"
      and bound: "sum_list (map snd c) < 2 ^ 63"
  shows "ranks_assertion c ranks"
proof (cases "ranks = []")
  case True
  then show ?thesis by (simp add: ranks_assertion_def)
next
  case False
  let ?t = "\<lambda>j. wrap64 (snd (c ! j) - Max (set (column ranks j)))"
  have rk: "1 \<le> Max (set (column ranks j)) \<and> Max (set (column ranks j)) < snd (c ! j)"
    if j: "j < length c" for j
  proof -
    from False have "Max (set (column ranks j)) \<in> set (column ranks j)"
      by (intro Max_in) (simp_all add: column_def)
    then obtain row where row: "row \<in> set ranks" and m: "Max (set (column ranks j)) = row ! j"
      by (auto simp: column_def)
    from rng_integers_entries [OF r row] j m show ?thesis by simp
  qed
  have nn: "\<forall>x \<in> set (map snd c). 0 \<le> x"
  proof
    fix x assume "x \<in> set (map snd c)"
    then obtain j where "j < length c" "x = snd (c ! j)"
      by (auto simp: in_set_conv_nth)
    with rk [of j] show "0 \<le> x" by simp
  qed
  have le_sum: "snd (c ! j) \<le> sum_list (map snd c)" if "j < length c" for j
  proof -
    from that have "snd (c ! j) \<in> set (map snd c)" by simp
    moreover from nn have "\<And>x. x \<in> set (map snd c) \<Longrightarrow> 0 \<le> x" by blast
    ultimately show ?thesis by (intro member_le_sum_list) blast+
  qed
  have t: "0 \<le> ?t j \<and> ?t j \<le> snd (c ! j)" if j: "j < length c" for j
  proof -
    from rk [OF j] le_sum [OF j] bound
    have "- (2 ^ 63) \<le> snd (c ! j) - Max (set (column ranks j))"
      and "snd (c ! j) - Max (set (column ranks j)) < 2 ^ 63" by simp_all
    then have "?t j = snd (c ! j) - Max (set (column ranks j))" by (rule wrap64_id)
    with rk [OF j] show ?thesis by simp
  qed
  have t_le: "\<And>j. j \<in> set [0..<length c] \<Longrightarrow> ?t j \<le> snd (c ! j)"
    and t_nn: "\<And>x. x \<in> set (map ?t [0..<length c]) \<Longrightarrow> 0 \<le> x"
    using t by auto
  have "sum_list (map ?t [0..<length c]) \<le> sum_list (map (\<lambda>j. snd (c ! j)) [0..<length c])"
    by (rule sum_list_mono) (rule t_le)
  also have "map (\<lambda>j. snd (c ! j)) [0..<length c] = map snd c"
    by (rule nth_equalityI) simp_all
  finally have "sum_list (map ?t [0..<length c]) < 2 ^ 63" using bound by simp
  moreover from t_nn have "\<forall>x \<in> set (map ?t [0..<length c]). 0 \<le> x" by blast
  ultimately have "sum64 (map ?t [0..<length c]) = sum_list (map ?t [0..<length c])"
    by (intro sum64_id)
  moreover have "0 \<le> sum_list (map ?t [0..<length c])"
    by (rule sum_list_nonneg) (rule t_nn)
  ultimately show ?thesis by (simp add: ranks_assertion_def)
qed

lemma simulate_jury_votes_no_AssertionError:
  assumes "sum_list (map snd c) < 2 ^ 63"
  shows "simulate_jury_votes c n g \<noteq> Inl AssertionError"
proof
  assume "simulate_jury_votes c n g = Inl AssertionError"
  then consider "rng_integers 1 (map snd c) n g = Inl AssertionError"
    | ranks g' where "rng_integers 1 (map snd c) n g = Inr (ranks, g')" "\<not> ranks_assertion c ranks"
    by (auto simp: simulate_jury_votes_def bind_err_Inl_iff split: if_splits)
  then show False
  proof cases
    case 1
    then show ?thesis by (auto dest: rng_integers_error)
  next
    case 2
    with ranks_assertion_holds [OF _ assms] show ?thesis by blast
  qed
qed

lemma simulate_televotes_no_AssertionError:
  assumes "sum_list (map snd c) < 2 ^ 63"
  shows "simulate_televotes c ntv n g \<noteq> Inl AssertionError"
proof
  assume "simulate_televotes c ntv n g = Inl AssertionError"
  then consider "rng_integers 1 (map snd c) n g = Inl AssertionError"
    | ranks g' where "rng_integers 1 (map snd c) n g = Inr (ranks, g')" "\<not> ranks_assertion c ranks"
    by (auto simp: simulate_televotes_def bind_err_Inl_iff split: if_splits)
  then show False
  proof cases
    case 1
    then show ?thesis by (auto dest: rng_integers_error)
  next
    case 2
    with ranks_assertion_holds [OF _ assms] show ?thesis by blast
  qed
qed

lemma rank_to_points_range: "0 \<le> rank_to_points r \<and> rank_to_points r \<le> 12"
proof -
  have "searchsorted rank_breaks v \<le> 12" for v
    using length_takeWhile_le [of "\<lambda>x. x < v" rank_breaks]
    by (simp add: searchsorted_def rank_breaks_def)
  then show ?thesis by (simp add: rank_to_points_def)
qed

lemma blank_columns_known_labels:
  assumes "set no_televote \<subseteq> set (map fst c)"
  shows "blank_columns c no_televote ranks =
           map (\<lambda>row. map (\<lambda>(k, r). if fst k \<in> set no_televote then 256 else r) (zip c row)) ranks"
proof -
  from assms have "filter (\<lambda>y. y \<notin> set (map fst c)) no_televote = []"
    by (auto simp: filter_empty_conv)
  then show ?thesis by (simp add: blank_columns_def)
qed

lemma simulate_jury_votes_rows:
  assumes "simulate_jury_votes c n g = Inr (pts, g')" and "row \<in> set pts"
  shows "length row = length c \<and> (\<forall>p \<in> set row. 0 \<le> p \<and> p \<le> 12)"
proof -
  from assms(1) obtain ranks where r: "rng_integers 1 (map snd c) n g = Inr (ranks, g')"
    and pts: "pts = map (map rank_to_points) ranks"
    by (auto simp: simulate_jury_votes_def bind_err_Inr_iff split: if_splits)
  from assms(2) pts obtain rk where rk: "rk \<in> set ranks" and row: "row = map rank_to_points rk"
    by auto
  from rng_integers_entries [OF r rk] row show ?thesis
    by (auto simp: rank_to_points_range)
qed

lemma simulate_televotes_rows:
  assumes "simulate_televotes c ntv n g = Inr (pts, g')" and "row \<in> set pts"
      and known: "set ntv \<subseteq> set (map fst c)"
  shows "length row = length c \<and> (\<forall>p \<in> set row. 0 \<le> p \<and> p \<le> 12)"
proof -
  from assms(1) obtain ranks where r: "rng_integers 1 (map snd c) n g = Inr (ranks, g')"
    and pts: "pts = map (map rank_to_points) (blank_columns c ntv ranks)"
    by (auto simp: simulate_televotes_def bind_err_Inr_iff split: if_splits)
  from assms(2) pts blank_columns_known_labels [OF known, of ranks] obtain rk where rk: "rk \<in> set ranks"
    and row: "row = map rank_to_points (map (\<lambda>(k, r). if fst k \<in> set ntv then 256 else r) (zip c rk))"
    by auto
  from rng_integers_entries [OF r rk] row show ?thesis
    by (auto simp: rank_to_points_range)
qed

lemma series_loc_error: "series_loc s ks = Inl e \<Longrightarrow> e = KeyError"
  by (induction ks arbitrary: e) (auto simp: bind_err_Inl_iff split: option.splits)

lemma series_loc_values:
  "series_loc s ks = Inr vs \<Longrightarrow>
     map fst vs = ks \<and> (\<forall>kv \<in> set vs. map_of s (fst kv) = Some (snd kv))"
proof (induction ks arbitrary: vs)
  case Nil
  then show ?case by simp
next
  case (Cons k ks)
  then show ?case
    by (fastforce simp: bind_err_Inr_iff split: option.splits)
qed

subsection \<open>The score ladder\<close>

text \<open>
  Claim C2. For every rank \<open>r\<close> the simulators can hold (ranks are drawn from 1 upwards, and
  a blanked televote column holds 256), the conversion of a rank to points gives the entry
  of the ladder 12, 10, 8, 7, 6, 5, 4, 3, 2, 1 at position \<open>r\<close> when \<open>r\<close> is at most 10, and
  0 points when \<open>r\<close> is greater than 10.
\<close>

theorem rank_to_points_ladder:
  "1 \<le> r \<Longrightarrow>
     (r \<le> 10 \<longrightarrow> rank_to_points r = score_ladder ! nat (r - 1)) \<and>
     (10 < r \<longrightarrow> rank_to_points r = 0)"
proof -
  assume r: "1 \<le> r"
  have hi: "10 < r \<longrightarrow> rank_to_points r = 0"
    by (simp add: rank_to_points_def)
  have lo: "rank_to_points r = score_ladder ! nat (r - 1)" if "r \<le> 10"
  proof -
    from r that
    have "r = 1 \<or> r = 2 \<or> r = 3 \<or> r = 4 \<or> r = 5 \<or> r = 6 \<or> r = 7 \<or> r = 8 \<or> r = 9 \<or> r = 10"
      by arith
    then show ?thesis
      by (elim disjE)
         (simp_all add: rank_to_points_def searchsorted_def rank_breaks_def score_ladder_def)
  qed
  from hi lo show ?thesis by blast
qed

theorem rank_to_points_ladder_witness:
  "rank_to_points 3 = 8 \<and> rank_to_points 10 = 1 \<and> rank_to_points 11 = 0"
  using rank_to_points_ladder [of 3] rank_to_points_ladder [of 10] rank_to_points_ladder [of 11]
  by (simp add: score_ladder_def)

subsection \<open>A country and itself\<close>

text \<open>
  Claim C4, as the code has it. The test of a country toward itself returns \<open>False\<close>, the
  value of a test that found no favouritism, whatever the data and the period; the
  generator is left as it was, so no simulation has run. It does not return \<open>None\<close>, the
  value the function uses for a pair without records.
\<close>

theorem favouritism_self_returns_False:
  "favouritism G csv x x a b S q d g = Inr (PyBool False, g)"
  by (simp add: favouritism_def)

theorem favouritism_self_not_None:
  "outcome (favouritism globals_2016 points_2016 ''Norway'' ''Norway'' 2016 2016 100000 95 False rng_ones)
     = Inr (PyBool False, 0) \<and>
   outcome (favouritism globals_2016 points_2016 ''Norway'' ''Norway'' 2016 2016 100000 95 False rng_ones)
     \<noteq> Inr (PyNone, 0)"
  by (simp add: favouritism_def outcome_def rng_ones_def)

subsection \<open>A pair without records\<close>

text \<open>
  Claim C5, as the code has it. For two different countries, the test returns \<open>None\<close>
  exactly when no row of the table has this donor and this recipient in the period; it then
  leaves the generator as it was. A test that ran returns a boolean or the detail
  dictionary, never \<open>None\<close>, so the two outcomes cannot be confused. (For a country and
  itself the guard of C4 comes first and the answer is \<open>False\<close>.)
\<close>

theorem no_data_iff_empty_span:
  "x \<noteq> y \<Longrightarrow>
     ((\<exists>g'. favouritism G csv x y a b S q d g = Inr (PyNone, g')) \<longleftrightarrow>
        applicable_span csv x y a b = []) \<and>
     (applicable_span csv x y a b = [] \<longrightarrow> favouritism G csv x y a b S q d g = Inr (PyNone, g))"
proof -
  assume xy: "x \<noteq> y"
  have empty: "favouritism G csv x y a b S q d g = Inr (PyNone, g)"
    if "applicable_span csv x y a b = []"
    using xy that by (rule favouritism_empty_span)
  have ran: "applicable_span csv x y a b = []"
    if "favouritism G csv x y a b S q d g = Inr (PyNone, g')" for g'
    using favouritism_ran_not_None [OF xy, of csv a b G S q d g g'] that by blast
  from empty ran show ?thesis by blast
qed

theorem no_data_iff_empty_span_witness:
  "applicable_span points_2016 ''Norway'' ''Denmark'' 2016 2016 = [] \<and>
   favouritism globals_2016 points_2016 ''Norway'' ''Denmark'' 2016 2016 100000 95 False rng_ones
     = Inr (PyNone, rng_ones)"
proof -
  have ne: "''Norway'' \<noteq> ''Denmark''" by simp
  have span: "applicable_span points_2016 ''Norway'' ''Denmark'' 2016 2016 = []"
    by code_simp
  from no_data_iff_empty_span [OF ne, of globals_2016 points_2016 2016 2016 100000 95 False rng_ones] span
  show ?thesis by blast
qed

theorem empty_span_same_country_False:
  "applicable_span points_2016 ''Denmark'' ''Denmark'' 2016 2016 = [] \<and>
   outcome (favouritism globals_2016 points_2016 ''Denmark'' ''Denmark'' 2016 2016 100000 95 False rng_ones)
     = Inr (PyBool False, 0)"
proof -
  have "applicable_span points_2016 ''Denmark'' ''Denmark'' 2016 2016 = []"
    by code_simp
  then show ?thesis
    by (simp add: favouritism_def outcome_def rng_ones_def)
qed

subsection \<open>Collusion\<close>




text \<open>
  Claim C6, as the code has it. The two calls \<^verbatim>\<open>collusion(x, y)\<close> and \<^verbatim>\<open>collusion(y, x)\<close>
  run the two favouritism tests in opposite order, each test on fresh draws of the
  generator. When the first test of each call returns, and each direction gets the same
  verdict in both calls, the two collusion results have the same truth value. Without that
  the results can differ: from one and the same generator state the order of the calls
  decides which draws each direction sees.
\<close>

theorem collusion_symmetric_given_verdicts:
  assumes "favouritism G csv x y a b S q d g = Inr (vxy, g1)"
      and "favouritism G csv y x a b S q d h = Inr (vyx, h1)"
      and "yields_true (favouritism G csv y x a b S q d g1) = truthy vyx"
      and "yields_true (favouritism G csv x y a b S q d h1) = truthy vxy"
  shows "yields_true (collusion G csv x y a b S q d g) =
         yields_true (collusion G csv y x a b S q d h)"
  using assms
  by (auto simp: collusion_def bind_err_def yields_true_def split: if_splits)

theorem collusion_symmetric_given_verdicts_witness:
  "yields_true (collusion globals_2016 points_2016 ''Norway'' ''Sweden'' 2016 2016 1 95 False rng_ones) =
   yields_true (collusion globals_2016 points_2016 ''Sweden'' ''Norway'' 2016 2016 1 95 False rng_ones)"
proof -
  have "outcome (favouritism globals_2016 points_2016 ''Norway'' ''Sweden'' 2016 2016 1 95 False rng_ones)
          = Inr (PyBool True, 2)"
    by code_simp
  then have ns: "favouritism globals_2016 points_2016 ''Norway'' ''Sweden'' 2016 2016 1 95 False rng_ones
          = Inr (PyBool True, rng_ones\<lparr>pos := 2\<rparr>)"
    by (rule favouritism_of_outcome)
  have "outcome (favouritism globals_2016 points_2016 ''Sweden'' ''Norway'' 2016 2016 1 95 False rng_ones)
          = Inr (PyBool True, 2)"
    by code_simp
  then have sn: "favouritism globals_2016 points_2016 ''Sweden'' ''Norway'' 2016 2016 1 95 False rng_ones
          = Inr (PyBool True, rng_ones\<lparr>pos := 2\<rparr>)"
    by (rule favouritism_of_outcome)
  have sn2: "yields_true (favouritism globals_2016 points_2016 ''Sweden'' ''Norway'' 2016 2016 1 95 False
              (rng_ones\<lparr>pos := 2\<rparr>)) = truthy (PyBool True)"
    by code_simp
  have ns2: "yields_true (favouritism globals_2016 points_2016 ''Norway'' ''Sweden'' 2016 2016 1 95 False
              (rng_ones\<lparr>pos := 2\<rparr>)) = truthy (PyBool True)"
    by code_simp
  from collusion_symmetric_given_verdicts [OF ns sn sn2 ns2] show ?thesis .
qed

theorem collusion_order_changes_result:
  "outcome (collusion globals_2016 points_2016 ''Sweden'' ''Norway'' 2016 2016 1 95 False rng_switch)
     = Inr (PyBool True, 4) \<and>
   outcome (collusion globals_2016 points_2016 ''Norway'' ''Sweden'' 2016 2016 1 95 False rng_switch)
     = Inr (PyBool False, 4)"
  by code_simp

text \<open>
  Even with equal verdicts the returned objects can differ: Norway has no row toward
  Denmark, so one order returns \<open>None\<close>, the other the \<open>False\<close> of the test that ran.
\<close>

lemma collusion_None_versus_False:
  "outcome (collusion globals_2016 points_2016 ''Norway'' ''Denmark'' 2016 2016 1 95 False rng_zeros)
     = Inr (PyNone, 0) \<and>
   outcome (collusion globals_2016 points_2016 ''Denmark'' ''Norway'' 2016 2016 1 95 False rng_zeros)
     = Inr (PyBool False, 2)"
  by code_simp

subsection \<open>Merging the two channels\<close>

text \<open>
  Claim C7, as the code has it. In a year from 2016 on, a (year, donor, recipient) key is
  in the combined table exactly when the cleaned table has both a jury row and a televote
  row for it, and each combined row of the key carries the points of such a jury row and
  of such a televote row. A recipient with a televote row only is therefore not in the
  combined table.
\<close>

theorem combined_csv_dual_year_iff:
  "2016 \<le> y \<Longrightarrow>
     ((\<exists>row \<in> set (combined_csv csv). key_of row = (y, d, t)) \<longleftrightarrow>
      (\<exists>j \<in> set csv. \<exists>tv \<in> set csv. key_of j = (y, d, t) \<and> key_of tv = (y, d, t) \<and>
          Jury_or_Televoting j = ''J'' \<and> Jury_or_Televoting tv = ''T'')) \<and>
     (\<forall>row \<in> set (combined_csv csv). key_of row = (y, d, t) \<longrightarrow>
      (\<exists>j \<in> set csv. \<exists>tv \<in> set csv. key_of j = (y, d, t) \<and> key_of tv = (y, d, t) \<and>
          Jury_or_Televoting j = ''J'' \<and> Jury_or_Televoting tv = ''T'' \<and>
          Points_Jury row = Points j \<and> Points_Televote row = Points tv \<and>
          Points_total row = add64 (Points j) (Points tv)))"
proof -
  assume y: "2016 \<le> y"
  have fwd: "\<exists>j \<in> set csv. \<exists>tv \<in> set csv. key_of j = (y, d, t) \<and> key_of tv = (y, d, t) \<and>
          Jury_or_Televoting j = ''J'' \<and> Jury_or_Televoting tv = ''T'' \<and>
          Points_Jury row = Points j \<and> Points_Televote row = Points tv \<and>
          Points_total row = add64 (Points j) (Points tv)"
    if row: "row \<in> set (combined_csv csv)" and k: "key_of row = (y, d, t)" for row
  proof -
    from row obtain l r where lr: "l \<in> set csv" "r \<in> set csv" "key_of l = key_of r"
      "dual_vote_filter (l, r)" "row = combine (l, r)"
      by (auto simp: set_combined_csv)
    from k lr have kr: "key_of r = (y, d, t)" by (simp add: key_of_combine)
    then have yr: "Year r = y" by (simp add: key_of_def)
    with y lr(4) have ch: "Jury_or_Televoting l = ''J''" "Jury_or_Televoting r = ''T''"
      by (auto simp: dual_vote_filter_def)
    from y yr lr(5) have "Points_Jury row = Points l" "Points_Televote row = Points r"
      "Points_total row = add64 (Points l) (Points r)"
      by (simp_all add: combine_def Let_def)
    with lr kr ch show ?thesis by auto
  qed
  have bwd: "\<exists>row \<in> set (combined_csv csv). key_of row = (y, d, t)"
    if "j \<in> set csv" "tv \<in> set csv" "key_of j = (y, d, t)" "key_of tv = (y, d, t)"
       "Jury_or_Televoting j = ''J''" "Jury_or_Televoting tv = ''T''" for j tv
  proof -
    from that y have "dual_vote_filter (j, tv)"
      by (simp add: dual_vote_filter_def key_of_def)
    moreover from that have "key_of j = key_of tv" by simp
    ultimately have "combine (j, tv) \<in> set (combined_csv csv)"
      using that(1,2) unfolding set_combined_csv by blast
    moreover from that have "key_of (combine (j, tv)) = (y, d, t)"
      by (simp add: key_of_combine)
    ultimately show ?thesis by blast
  qed
  from fwd bwd show ?thesis by blast
qed

theorem combined_csv_dual_year_iff_witness:
  "(\<exists>row \<in> set (combined_csv final_2016). key_of row = (2016, ''Norway'', ''Sweden''))"
proof -
  have y: "(2016::int) \<le> 2016" by simp
  have "\<exists>j \<in> set final_2016. \<exists>tv \<in> set final_2016.
          key_of j = (2016, ''Norway'', ''Sweden'') \<and> key_of tv = (2016, ''Norway'', ''Sweden'') \<and>
          Jury_or_Televoting j = ''J'' \<and> Jury_or_Televoting tv = ''T''"
    by code_simp
  with combined_csv_dual_year_iff [OF y, of final_2016 "''Norway''" "''Sweden''"]
  show ?thesis by blast
qed

theorem televote_only_dropped:
  "clean_csv televote_only_2016 = [csv_line 2016 ''T'' ''Norway'' ''Sweden'' 5] \<and>
   combined_csv (clean_csv televote_only_2016) = [] \<and>
   record_normalizer televote_only_2016 = Inr []"
  by code_simp

subsection \<open>Repeated rows\<close>

text \<open>
  Claim C8, as the code has it. The cleaning cell does not fail on repeated rows: rows of
  the grand final that agree in year, channel, donor, recipient and points are collapsed
  by \<^verbatim>\<open>drop_duplicates()\<close>, so that each of them occurs exactly once in the table, and the
  normaliser returns a table.
\<close>

theorem exact_duplicates_collapse:
  "distinct (deduplicated rows) \<and>
   set (deduplicated rows) = select_columns ` set (grand_final rows) \<and>
   (\<forall>r \<in> set (grand_final rows). count_list (deduplicated rows) (select_columns r) = 1) \<and>
   (\<exists>tbl. record_normalizer rows = Inr tbl)"
proof -
  have d: "distinct (deduplicated rows)"
    by (simp add: deduplicated_def drop_duplicates_distinct)
  have s: "set (deduplicated rows) = select_columns ` set (grand_final rows)"
    by (simp add: deduplicated_def set_drop_duplicates)
  have "count_list (deduplicated rows) (select_columns r) = 1" if "r \<in> set (grand_final rows)" for r
  proof -
    from that s have "select_columns r \<in> set (deduplicated rows)" by blast
    with d show ?thesis by (rule count_list_distinct)
  qed
  then have "\<forall>r \<in> set (grand_final rows). count_list (deduplicated rows) (select_columns r) = 1"
    by blast
  with d s show ?thesis by (simp add: record_normalizer_def)
qed

theorem exact_duplicates_collapse_witness:
  "grand_final repeated_rows_2015 = repeated_rows_2015 \<and>
   deduplicated repeated_rows_2015 = [csv_line 2015 ''J'' ''Norway'' ''Sweden'' 12] \<and>
   count_list (deduplicated repeated_rows_2015) (csv_line 2015 ''J'' ''Norway'' ''Sweden'' 12) = 1"
proof -
  have g: "grand_final repeated_rows_2015 = repeated_rows_2015" by code_simp
  have m: "raw_line 2015 ''f'' '''' ''J'' ''Norway'' ''Sweden'' 12 \<in> set (grand_final repeated_rows_2015)"
    by code_simp
  have sc: "select_columns (raw_line 2015 ''f'' '''' ''J'' ''Norway'' ''Sweden'' 12)
              = csv_line 2015 ''J'' ''Norway'' ''Sweden'' 12"
    by code_simp
  have dd: "deduplicated repeated_rows_2015 = [csv_line 2015 ''J'' ''Norway'' ''Sweden'' 12]"
    by code_simp
  from exact_duplicates_collapse [of repeated_rows_2015] m sc
  have "count_list (deduplicated repeated_rows_2015) (csv_line 2015 ''J'' ''Norway'' ''Sweden'' 12) = 1"
    by force
  with g dd show ?thesis by simp
qed

theorem repeated_rows_no_DataError:
  "record_normalizer repeated_rows_2015 =
     Inr [\<lparr>Year = 2015, From_country = ''Norway'', To_country = ''Sweden'',
           Points_Jury = Fin 1, Points_Televote = Fin 0, Points_total = Fin 1\<rparr>]"
  by code_simp

text \<open>
  Two rows of one key that disagree on the points are not equal rows: both stay, and the
  pair gets two combined rows. These are the rows the notebook's introduction reports as
  removed from the file by hand.
\<close>

lemma conflicting_duplicates_kept:
  "record_normalizer belarus_2019 =
     Inr [\<lparr>Year = 2019, From_country = ''Belarus'', To_country = ''Russia'',
           Points_Jury = Fin (1 / 4), Points_Televote = Fin (3 / 4), Points_total = Fin 1\<rparr>,
          \<lparr>Year = 2019, From_country = ''Belarus'', To_country = ''Russia'',
           Points_Jury = Fin (1 / 4), Points_Televote = Fin 0, Points_total = Fin (1 / 4)\<rparr>]"
  by code_simp

subsection \<open>Normalised points\<close>

text \<open>
  Claim C9, as the code has it. When every recorded score is at least 0 and below
  \<open>2 ^ 62\<close> (so that no int64 sum of two scores wraps), every row of the normalised table
  whose year has a maximum of receivable points (the year's highest jury score plus the
  year's highest televote score) different from 0 has a \<^verbatim>\<open>Points_total\<close> that is a finite
  number between 0 and 1.
\<close>

theorem points_total_unit_interval:
  assumes "\<forall>v \<in> set csv. 0 \<le> Points v \<and> Points v < 2 ^ 62"
      and "r \<in> set (points_table (combined_csv csv))"
      and "map_of (fst (max_each_year (combined_csv csv))) (Year r) = Some h"
      and "h \<noteq> 0"
  shows "\<exists>p. Points_total r = Fin p \<and> 0 \<le> p \<and> p \<le> 1"
proof -
  let ?tbl = "combined_csv csv"
  have row: "0 \<le> Points_Jury c \<and> Points_Jury c < 2 ^ 62 \<and>
             0 \<le> Points_Televote c \<and> Points_Televote c < 2 ^ 62" if "c \<in> set ?tbl" for c
  proof -
    from that obtain l r where "l \<in> set csv" "r \<in> set csv" "c = combine (l, r)"
      by (auto simp: set_combined_csv)
    with assms(1) show ?thesis by (simp add: combine_def Let_def)
  qed
  from assms(2) obtain c where c: "c \<in> set ?tbl" and r: "r = normalise (fst (max_each_year ?tbl)) c"
    by (auto simp: points_table_def)
  from r have yr: "Year r = Year c" by (simp add: normalise_def)
  let ?mj = "by_year_max Points_Jury ?tbl (Year c)"
  let ?mt = "by_year_max Points_Televote ?tbl (Year c)"
  from c have "Year c \<in> set (years_of ?tbl)" by (rule year_in_years_of)
  with assms(3) yr have h64: "h = add64 ?mj ?mt" by (simp add: highest_lookup)
  from by_year_max_attained [OF c, of Points_Jury] row have mj: "?mj < 2 ^ 62" by auto
  from by_year_max_attained [OF c, of Points_Televote] row have mt: "?mt < 2 ^ 62" by auto
  from col_le_by_year_max [OF c, of Points_Jury] col_le_by_year_max [OF c, of Points_Televote]
  have le: "Points_Jury c \<le> ?mj" "Points_Televote c \<le> ?mt" by simp_all
  from row [OF c] have nn: "0 \<le> Points_Jury c" "0 \<le> Points_Televote c"
    and lt: "Points_Jury c < 2 ^ 62" "Points_Televote c < 2 ^ 62" by simp_all
  from nn le mj mt have "add64 ?mj ?mt = ?mj + ?mt" by (intro add64_id) simp_all
  with h64 have h: "h = ?mj + ?mt" by simp
  from c obtain l' r' where "c = combine (l', r')" by (auto simp: set_combined_csv)
  then have "Points_total c = add64 (Points_Jury c) (Points_Televote c)"
    by (simp add: combine_def Let_def)
  moreover from nn lt have "add64 (Points_Jury c) (Points_Televote c) = Points_Jury c + Points_Televote c"
    by (intro add64_id) simp_all
  ultimately have tot: "Points_total c = Points_Jury c + Points_Televote c" by simp
  from tot le h have tle: "Points_total c \<le> h" by simp
  from tot nn have ge: "0 \<le> Points_total c" by simp
  with tle assms(4) have hpos: "0 < h" by simp
  from r assms(3) yr assms(4)
  have "Points_total r = Fin (rat_of_int (Points_total c) / rat_of_int h)"
    by (simp add: normalise_def divide_by_highest_def fdiv_int_def)
  moreover from ge hpos have "0 \<le> rat_of_int (Points_total c) / rat_of_int h" by simp
  moreover from tle hpos have "rat_of_int (Points_total c) / rat_of_int h \<le> 1" by simp
  ultimately show ?thesis by blast
qed

theorem points_total_unit_interval_witness:
  "\<exists>p. Points_total (hd points_2016) = Fin p \<and> 0 \<le> p \<and> p \<le> 1"
proof -
  have nn: "\<forall>v \<in> set final_2016. 0 \<le> Points v \<and> Points v < 2 ^ 62" by code_simp
  have mem: "hd points_2016 \<in> set (points_table (combined_csv final_2016))" by code_simp
  have h: "map_of (fst (max_each_year (combined_csv final_2016))) (Year (hd points_2016)) = Some 24"
    by code_simp
  have ne: "(24::int) \<noteq> 0" by simp
  from points_total_unit_interval [OF nn mem h ne] show ?thesis .
qed

text \<open>
  In a year whose scores are all 0 the maximum is 0 and the division yields \<open>nan\<close>. In a
  year whose two highest scores are \<open>2 ^ 62 + 2\<close> each, their sum wraps to a negative
  maximum and the first normalised total is negative.
\<close>

theorem points_total_nan_or_negative:
  "record_normalizer zero_row_2000 =
     Inr [\<lparr>Year = 2000, From_country = ''Norway'', To_country = ''Sweden'',
           Points_Jury = NaN, Points_Televote = NaN, Points_total = NaN\<rparr>] \<and>
   map_of (fst (max_each_year (combined_csv (clean_csv overflow_2016)))) 2016
     = Some (- 9223372036854775804) \<and>
   (case record_normalizer overflow_2016 of
      Inr (r # rs) \<Rightarrow> fgt (Fin 0) (Points_total r)
    | _ \<Rightarrow> False)"
  by code_simp

subsection \<open>The assertions of the simulation\<close>

text \<open>
  Claim C10. The claim says that the two internal assertions cannot fail in a favouritism
  test that reaches the simulation. The sanity check on the sorted batch can: in the year
  in which twelve countries vote and every score is 0, the maximum of receivable points is
  0, a drawn rank of 11 gives 0 points, the trial average is \<open>0 / 0\<close>, that is \<open>nan\<close>, and
  \<^verbatim>\<open>assert simluated_distribution.min() >= 0\<close> raises.
\<close>

theorem sanity_check_fails_all_zero_year:
  "outcome (favouritism globals_zero_2000 points_zero_2000 ''A'' ''Z'' 2000 2000 1 95 False rng_tens)
     = Inl AssertionError"
  by code_simp

text \<open>
  What does hold. Every drawn rank lies between 1 and the year's number of participants, and
  the assertion of the two simulators holds (the participant counts are numbers of rows of
  a table, so their int64 sum does not wrap). When the maximum of every year of a
  non-empty span is positive, the sanity check holds as well and every trial average is a
  finite number that is at least 0.
\<close>

lemma foldl_fadd_nonneg:
  "0 \<le> a \<Longrightarrow> \<forall>x \<in> set xs. \<exists>q. x = Fin q \<and> 0 \<le> q \<Longrightarrow>
     \<exists>s. foldl fadd (Fin a) xs = Fin s \<and> 0 \<le> s"
proof (induction xs arbitrary: a)
  case Nil
  then show ?case by simp
next
  case (Cons x xs)
  from Cons.prems obtain q where q: "x = Fin q" "0 \<le> q" by auto
  with Cons.prems have "0 \<le> a + q" by simp
  from Cons.IH [OF this] Cons.prems q show ?case by simp
qed

lemma np_mean_nonneg:
  assumes "xs \<noteq> []" and "\<forall>x \<in> set xs. \<exists>q. x = Fin q \<and> 0 \<le> q"
  shows "\<exists>m. np_mean xs = Fin m \<and> 0 \<le> m"
proof -
  from foldl_fadd_nonneg [of 0 xs] assms(2) obtain s where s: "fsum xs = Fin s" "0 \<le> s"
    by (auto simp: fsum_def)
  from assms(1) obtain k where k: "length xs = Suc k" by (cases xs) auto
  with s show ?thesis by (simp add: np_mean_def)
qed

lemma foldl_fmin_nonneg:
  "0 \<le> a \<Longrightarrow> \<forall>x \<in> set xs. \<exists>q. x = Fin q \<and> 0 \<le> q \<Longrightarrow>
     \<exists>m. foldl fmin (Fin a) xs = Fin m \<and> 0 \<le> m"
proof (induction xs arbitrary: a)
  case Nil
  then show ?case by simp
next
  case (Cons x xs)
  from Cons.prems obtain q where q: "x = Fin q" "0 \<le> q" by auto
  show ?case
  proof (cases "sort_le (Fin a) (Fin q)")
    case True
    with q Cons.IH [of a] Cons.prems show ?thesis by simp
  next
    case False
    with q Cons.IH [of q] Cons.prems show ?thesis by simp
  qed
qed

lemma np_min_nonneg:
  assumes "xs \<noteq> []" and "\<forall>x \<in> set xs. \<exists>q. x = Fin q \<and> 0 \<le> q"
  shows "\<exists>m. np_min xs = Inr (Fin m) \<and> 0 \<le> m"
proof -
  from assms obtain a ys where xs: "xs = Fin a # ys" and a: "0 \<le> a"
    by (cases xs) auto
  with assms(2) foldl_fmin_nonneg [OF a, of ys] show ?thesis
    by (auto simp: np_min_def)
qed

lemma simulation_avgs_nonneg:
  assumes jv: "\<forall>row \<in> set jv. length row = L \<and> (\<forall>p \<in> set row. 0 \<le> p \<and> p \<le> 12)"
      and tv: "\<forall>row \<in> set tv. length row = L \<and> (\<forall>p \<in> set row. 0 \<le> p \<and> p \<le> 12)"
      and hs: "length hs = L" "\<forall>h \<in> set hs. 0 < snd h"
      and L: "0 < L"
      and a: "v \<in> set (simulation_avgs jv tv hs)"
  shows "\<exists>q. v = Fin q \<and> 0 \<le> q"
proof -
  from a obtain js ts where jt: "(js, ts) \<in> set (zip jv tv)"
    and v: "v = np_mean (map (\<lambda>(p, h). fdiv_int p (snd h))
                  (zip (map (\<lambda>(j, t). add64 j t) (zip js ts)) hs))"
    by (auto simp: simulation_avgs_def Let_def)
  from jt have "js \<in> set jv" "ts \<in> set tv" by (auto dest: set_zip_leftD set_zip_rightD)
  with jv tv have js: "length js = L" "\<forall>p \<in> set js. 0 \<le> p \<and> p \<le> 12"
    and ts: "length ts = L" "\<forall>p \<in> set ts. 0 \<le> p \<and> p \<le> 12" by auto
  let ?xs = "map (\<lambda>(p, h). fdiv_int p (snd h)) (zip (map (\<lambda>(j, t). add64 j t) (zip js ts)) hs)"
  from js ts hs L have ne: "?xs \<noteq> []" by (cases js; cases ts; cases hs) auto
  have "\<exists>q. x = Fin q \<and> 0 \<le> q" if "x \<in> set ?xs" for x
  proof -
    from that obtain p h where ph: "(p, h) \<in> set (zip (map (\<lambda>(j, t). add64 j t) (zip js ts)) hs)"
      and x: "x = fdiv_int p (snd h)" by auto
    from ph have "p \<in> set (map (\<lambda>(j, t). add64 j t) (zip js ts))" and h: "h \<in> set hs"
      by (auto dest: set_zip_leftD set_zip_rightD)
    then obtain j t where jt': "(j, t) \<in> set (zip js ts)" and pjt: "p = add64 j t" by auto
    from jt' have "j \<in> set js" "t \<in> set ts" by (auto dest: set_zip_leftD set_zip_rightD)
    with js(2) ts(2) have b: "0 \<le> j" "0 \<le> t" "j \<le> 12" "t \<le> 12" by simp_all
    then have "add64 j t = j + t" by (intro add64_id) simp_all
    with pjt b have p: "0 \<le> p" by simp
    from h hs have "0 < snd h" by simp
    with p x show ?thesis by (simp add: fdiv_int_def)
  qed
  with ne v show ?thesis using np_mean_nonneg [of ?xs] by blast
qed

text \<open>The pieces of a simulation over the years \<open>ts\<close>, with the facts used below.\<close>

lemma simulation_parts:
  assumes ts: "ts \<noteq> []"
      and pos: "\<forall>y \<in> set ts. \<forall>h. map_of (MAX_POSSIBLE_POINTS_RECEIVED G) y = Some h \<longrightarrow> 0 < h"
      and c: "series_loc (PARTICIPANTS_BY_YEAR G) ts = Inr c"
      and b: "series_loc (HAS_TELEVOTE_BY_YEAR G) ts = Inr bs"
      and jv: "simulate_jury_votes c n g = Inr (jv, g1)"
      and tv: "simulate_televotes c (map fst (filter (\<lambda>(y, b). b = False) bs)) n g1 = Inr (tv, g2)"
      and hs: "series_loc (MAX_POSSIBLE_POINTS_RECEIVED G) ts = Inr hs"
  shows "\<forall>v \<in> set (np_sort (simulation_avgs jv tv hs)). \<exists>q. v = Fin q \<and> 0 \<le> q"
proof -
  from series_loc_values [OF c] have kc: "map fst c = ts" by simp
  then have lc: "length c = length ts" by (metis length_map)
  from series_loc_values [OF b] have kb: "map fst bs = ts" by simp
  have known: "set (map fst (filter (\<lambda>(y, b). b = False) bs)) \<subseteq> set (map fst c)"
  proof -
    have "set (map fst (filter (\<lambda>(y, b). b = False) bs)) \<subseteq> set (map fst bs)" by auto
    with kb kc show ?thesis by simp
  qed
  from series_loc_values [OF hs] have kh: "map fst hs = ts"
    and vh: "\<forall>kv \<in> set hs. map_of (MAX_POSSIBLE_POINTS_RECEIVED G) (fst kv) = Some (snd kv)"
    by simp_all
  from kh have lh: "length hs = length ts" by (metis length_map)
  have ph: "\<forall>h \<in> set hs. 0 < snd h"
  proof
    fix h assume h: "h \<in> set hs"
    then have "fst h \<in> set (map fst hs)" by simp
    with kh have "fst h \<in> set ts" by simp
    with pos vh h show "0 < snd h" by blast
  qed
  have jvr: "\<forall>row \<in> set jv. length row = length ts \<and> (\<forall>p \<in> set row. 0 \<le> p \<and> p \<le> 12)"
    using simulate_jury_votes_rows [OF jv] lc by simp
  have tvr: "\<forall>row \<in> set tv. length row = length ts \<and> (\<forall>p \<in> set row. 0 \<le> p \<and> p \<le> 12)"
    using simulate_televotes_rows [OF tv _ known] lc by simp
  from ts have L: "0 < length ts" by simp
  show ?thesis
    using simulation_avgs_nonneg [OF jvr tvr lh ph L] by (simp add: set_np_sort)
qed

lemma simulated_distribution_no_AssertionError:
  assumes ts: "ts \<noteq> []"
      and pos: "\<forall>y \<in> set ts. \<forall>h. map_of (MAX_POSSIBLE_POINTS_RECEIVED G) y = Some h \<longrightarrow> 0 < h"
      and cnt: "\<forall>c. series_loc (PARTICIPANTS_BY_YEAR G) ts = Inr c \<longrightarrow> sum_list (map snd c) < 2 ^ 63"
  shows "simulated_distribution G ts n g \<noteq> Inl AssertionError"
proof
  assume "simulated_distribution G ts n g = Inl AssertionError"
  then consider
      (a) "series_loc (PARTICIPANTS_BY_YEAR G) ts = Inl AssertionError"
    | (b) "series_loc (HAS_TELEVOTE_BY_YEAR G) ts = Inl AssertionError"
    | (c) c where "series_loc (PARTICIPANTS_BY_YEAR G) ts = Inr c"
                  "simulate_jury_votes c n g = Inl AssertionError"
    | (d) c ntv g1 where "series_loc (PARTICIPANTS_BY_YEAR G) ts = Inr c"
                  "simulate_televotes c ntv n g1 = Inl AssertionError"
    | (e) "series_loc (MAX_POSSIBLE_POINTS_RECEIVED G) ts = Inl AssertionError"
    | (f) xs where "np_min xs = Inl AssertionError"
    | (g) c bs jv g1 tv g2 hs m where
        "series_loc (PARTICIPANTS_BY_YEAR G) ts = Inr c"
        "series_loc (HAS_TELEVOTE_BY_YEAR G) ts = Inr bs"
        "simulate_jury_votes c n g = Inr (jv, g1)"
        "simulate_televotes c (map fst (filter (\<lambda>(y, b). b = False) bs)) n g1 = Inr (tv, g2)"
        "series_loc (MAX_POSSIBLE_POINTS_RECEIVED G) ts = Inr hs"
        "np_min (np_sort (simulation_avgs jv tv hs)) = Inr m" "\<not> fge m (Fin 0)"
    by (auto simp: simulated_distribution_def Let_def bind_err_Inl_iff split: if_splits)
  then show False
  proof cases
    case a then show ?thesis by (auto dest: series_loc_error)
  next
    case b then show ?thesis by (auto dest: series_loc_error)
  next
    case c with cnt simulate_jury_votes_no_AssertionError show ?thesis by blast
  next
    case d with cnt simulate_televotes_no_AssertionError show ?thesis by blast
  next
    case e then show ?thesis by (auto dest: series_loc_error)
  next
    case f then show ?thesis by (auto dest: np_min_error)
  next
    case g
    from simulation_parts [OF ts pos g(1,2,3,4,5)]
    have all: "\<forall>v \<in> set (np_sort (simulation_avgs jv tv hs)). \<exists>q. v = Fin q \<and> 0 \<le> q" .
    show ?thesis
    proof (cases "np_sort (simulation_avgs jv tv hs) = []")
      case True
      with g(6) show ?thesis by (simp add: np_min_def)
    next
      case False
      from np_min_nonneg [OF False all] g(6,7) show ?thesis by auto
    qed
  qed
qed

lemma simulated_distribution_batch_nonneg:
  assumes ts: "ts \<noteq> []"
      and pos: "\<forall>y \<in> set ts. \<forall>h. map_of (MAX_POSSIBLE_POINTS_RECEIVED G) y = Some h \<longrightarrow> 0 < h"
      and ok: "simulated_distribution G ts n g = Inr (batch, g')"
  shows "\<forall>v \<in> set batch. \<exists>p. v = Fin p \<and> 0 \<le> p"
proof -
  from ok obtain c bs jv g1 tv hs where g:
    "series_loc (PARTICIPANTS_BY_YEAR G) ts = Inr c"
    "series_loc (HAS_TELEVOTE_BY_YEAR G) ts = Inr bs"
    "simulate_jury_votes c n g = Inr (jv, g1)"
    "simulate_televotes c (map fst (filter (\<lambda>(y, b). b = False) bs)) n g1 = Inr (tv, g')"
    "series_loc (MAX_POSSIBLE_POINTS_RECEIVED G) ts = Inr hs"
    "batch = np_sort (simulation_avgs jv tv hs)"
    by (auto simp: simulated_distribution_def Let_def bind_err_Inr_iff split: if_splits)
  from simulation_parts [OF ts pos g(1,2,3,4,5)] g(6) show ?thesis by simp
qed

lemma favouritism_no_AssertionError:
  assumes pos: "\<forall>r \<in> set (applicable_span csv x y a b).
             \<forall>h. map_of (MAX_POSSIBLE_POINTS_RECEIVED G) (Year r) = Some h \<longrightarrow> 0 < h"
      and cnt: "\<forall>c. series_loc (PARTICIPANTS_BY_YEAR G) (map Year (applicable_span csv x y a b)) = Inr c
                  \<longrightarrow> sum_list (map snd c) < 2 ^ 63"
  shows "favouritism G csv x y a b n q d g \<noteq> Inl AssertionError"
proof (cases "x = y \<or> applicable_span csv x y a b = []")
  case True
  then show ?thesis by (auto simp: favouritism_def)
next
  case False
  let ?ts = "map Year (applicable_span csv x y a b)"
  from False have ne: "?ts \<noteq> []" by simp
  from pos have p: "\<forall>y \<in> set ?ts. \<forall>h. map_of (MAX_POSSIBLE_POINTS_RECEIVED G) y = Some h \<longrightarrow> 0 < h"
    by auto
  show ?thesis
  proof
    assume "favouritism G csv x y a b n q d g = Inl AssertionError"
    with False consider "simulated_distribution G ?ts n g = Inl AssertionError"
      | batch where "np_percentile batch q = Inl AssertionError"
      by (auto simp: favouritism_def Let_def bind_err_Inl_iff split: if_splits)
    then show False
    proof cases
      case 1
      with simulated_distribution_no_AssertionError [OF ne p cnt] show ?thesis by blast
    next
      case 2
      then show ?thesis by (auto dest: np_percentile_error)
    qed
  qed
qed

lemma drawn_ranks_in_range:
  assumes "rng_integers 1 (map snd c) n g = Inr (ranks, g')" "row \<in> set ranks" "j < length c"
  shows "1 \<le> row ! j \<and> row ! j \<le> snd (c ! j)"
  using rng_integers_entries [OF assms(1,2)] assms(3) by fastforce

lemma favouritism_assertions_hold_2016:
  "favouritism globals_2016 points_2016 ''Norway'' ''Sweden'' 2016 2016 3 95 False rng_switch
     \<noteq> Inl AssertionError"
proof -
  have ys: "map Year (applicable_span points_2016 ''Norway'' ''Sweden'' 2016 2016) = [2016]"
    by code_simp
  have h: "map_of (MAX_POSSIBLE_POINTS_RECEIVED globals_2016) 2016 = Some 24"
    by code_simp
  have "Year r = 2016" if "r \<in> set (applicable_span points_2016 ''Norway'' ''Sweden'' 2016 2016)" for r
  proof -
    from that have "Year r \<in> set (map Year (applicable_span points_2016 ''Norway'' ''Sweden'' 2016 2016))"
      by simp
    with ys show ?thesis by simp
  qed
  with h have pos: "\<forall>r \<in> set (applicable_span points_2016 ''Norway'' ''Sweden'' 2016 2016).
       \<forall>h. map_of (MAX_POSSIBLE_POINTS_RECEIVED globals_2016) (Year r) = Some h \<longrightarrow> 0 < h"
    by simp
  have "series_loc (PARTICIPANTS_BY_YEAR globals_2016) [2016] = Inr [(2016, 3)]"
    by code_simp
  with ys have cnt: "\<forall>c. series_loc (PARTICIPANTS_BY_YEAR globals_2016)
        (map Year (applicable_span points_2016 ''Norway'' ''Sweden'' 2016 2016)) = Inr c
          \<longrightarrow> sum_list (map snd c) < 2 ^ 63"
    by simp
  from favouritism_no_AssertionError [OF pos cnt] show ?thesis .
qed

end
